theory Spec2Isabelle
  imports Main "HOL-Library.Word"
begin

section \<open>The program ref\_main.c\<close>

text \<open>
  The whole program is the function \<open>main\<close> of
  \<^verbatim>\<open>src/VSoCNRVH-3/sw/exploit/ref/ref_main.c\<close>:
  \<^verbatim>\<open>
  12  uint32_t a = (uint32_t)neorv32_cpu_csr_read(CSR_CYCLE);
  14  neorv32_cpu_goto_user_mode();
  15  a = (uint32_t)neorv32_cpu_csr_read(CSR_CYCLE);
  16  neorv32_cpu_csr_write(CSR_CYCLE, 0);
  18  return 0;
  \<close>
  Lines 6 to 11, 13 and 17 are comments. The three functions it calls belong to the
  NEORV32 library, which is not among the sources: they are parameters of the model.
\<close>

subsection \<open>Data\<close>

type_synonym u32 = "32 word"

text \<open>The library takes the register number as \<^verbatim>\<open>const int csr_id\<close>.\<close>

type_synonym csr_id = int

text \<open>
  Modelled from the spec: the constants \<^verbatim>\<open>CSR_CYCLE\<close>, \<^verbatim>\<open>CSR_MSTATUS\<close> and
  \<^verbatim>\<open>CSR_MCOUNTEREN\<close> are declared in \<^verbatim>\<open>neorv32.h\<close>, which is not among the sources.
  Their values are the register addresses of the RISC-V privileged architecture
  (\<^verbatim>\<open>0xc00\<close>, \<^verbatim>\<open>0x300\<close>, \<^verbatim>\<open>0x306\<close>); line 8 of the source writes the second one as 768.
\<close>

definition CSR_CYCLE :: csr_id where
  "CSR_CYCLE = 3072"

definition CSR_MSTATUS :: csr_id where
  "CSR_MSTATUS = 768"

definition CSR_MCOUNTEREN :: csr_id where
  "CSR_MCOUNTEREN = 774"

text \<open>
  The library functions, over any type \<open>'m\<close> of machine states. Each is the whole effect
  of the call on the machine as seen by the caller once the call has returned.
\<close>

record 'm platform =
  neorv32_cpu_csr_read :: "csr_id \<Rightarrow> 'm \<Rightarrow> u32 \<times> 'm"
  neorv32_cpu_csr_write :: "csr_id \<Rightarrow> u32 \<Rightarrow> 'm \<Rightarrow> 'm"
  neorv32_cpu_goto_user_mode :: "'m \<Rightarrow> 'm"

text \<open>The operations that \<open>main\<close> performs, in the order it performs them.\<close>

datatype op = CsrRead csr_id | CsrWrite csr_id u32 | GotoUserMode | Return int

text \<open>
  The state of a run: the machine, the local variable \<^verbatim>\<open>a\<close> (\<open>None\<close> before its
  declaration on line 12) and the operations performed so far.
\<close>

record 'm run_state =
  machine :: 'm
  local_a :: "u32 option"
  trace :: "op list"

definition init :: "'m \<Rightarrow> 'm run_state" where
  "init m = \<lparr>machine = m, local_a = None, trace = []\<rparr>"

subsection \<open>The statements\<close>

text \<open>\<^verbatim>\<open>a = (uint32_t)neorv32_cpu_csr_read(c);\<close> (lines 12 and 15 with \<open>c = CSR_CYCLE\<close>)\<close>

definition read_into_a :: "'m platform \<Rightarrow> csr_id \<Rightarrow> 'm run_state \<Rightarrow> 'm run_state" where
  "read_into_a P c r =
     (let (v, m) = neorv32_cpu_csr_read P c (machine r)
      in r\<lparr>machine := m, local_a := Some v, trace := trace r @ [CsrRead c]\<rparr>)"

text \<open>\<^verbatim>\<open>neorv32_cpu_goto_user_mode();\<close> (line 14)\<close>

definition call_goto_user_mode :: "'m platform \<Rightarrow> 'm run_state \<Rightarrow> 'm run_state" where
  "call_goto_user_mode P r =
     r\<lparr>machine := neorv32_cpu_goto_user_mode P (machine r),
       trace := trace r @ [GotoUserMode]\<rparr>"

text \<open>\<^verbatim>\<open>neorv32_cpu_csr_write(c, v);\<close> (line 16 with \<open>c = CSR_CYCLE\<close> and \<open>v = 0\<close>)\<close>

definition write_csr :: "'m platform \<Rightarrow> csr_id \<Rightarrow> u32 \<Rightarrow> 'm run_state \<Rightarrow> 'm run_state" where
  "write_csr P c v r =
     r\<lparr>machine := neorv32_cpu_csr_write P c v (machine r),
       trace := trace r @ [CsrWrite c v]\<rparr>"

text \<open>\<^verbatim>\<open>return n;\<close> (line 18 with \<open>n = 0\<close>)\<close>

definition return_stmt :: "int \<Rightarrow> 'm run_state \<Rightarrow> int \<times> 'm run_state" where
  "return_stmt n r = (n, r\<lparr>trace := trace r @ [Return n]\<rparr>)"

subsection \<open>main\<close>

definition main :: "'m platform \<Rightarrow> 'm \<Rightarrow> int \<times> 'm run_state" where
  "main P m =
     (let r12 = read_into_a P CSR_CYCLE (init m);
          r14 = call_goto_user_mode P r12;
          r15 = read_into_a P CSR_CYCLE r14;
          r16 = write_csr P CSR_CYCLE 0 r15
      in return_stmt 0 r16)"

subsection \<open>main, statement by statement\<close>

text \<open>
  The program counter names the line of the next statement; \<open>Exit n\<close> is the state
  after \<^verbatim>\<open>return n\<close>.
\<close>

datatype pc = L12 | L14 | L15 | L16 | L18 | Exit int

inductive step :: "'m platform \<Rightarrow> pc \<times> 'm run_state \<Rightarrow> pc \<times> 'm run_state \<Rightarrow> bool"
  for P :: "'m platform" where
  line12: "step P (L12, r) (L14, read_into_a P CSR_CYCLE r)"
| line14: "step P (L14, r) (L15, call_goto_user_mode P r)"
| line15: "step P (L15, r) (L16, read_into_a P CSR_CYCLE r)"
| line16: "step P (L16, r) (L18, write_csr P CSR_CYCLE 0 r)"
| line18: "step P (L18, r) (Exit (fst (return_stmt 0 r)), snd (return_stmt 0 r))"

abbreviation steps :: "'m platform \<Rightarrow> pc \<times> 'm run_state \<Rightarrow> pc \<times> 'm run_state \<Rightarrow> bool" where
  "steps P \<equiv> (step P)\<^sup>*\<^sup>*"

text \<open>The configurations of a run from machine state \<open>m\<close>, in order.\<close>

definition at12 :: "'m platform \<Rightarrow> 'm \<Rightarrow> 'm run_state" where
  "at12 P m = init m"

definition at14 :: "'m platform \<Rightarrow> 'm \<Rightarrow> 'm run_state" where
  "at14 P m = read_into_a P CSR_CYCLE (at12 P m)"

definition at15 :: "'m platform \<Rightarrow> 'm \<Rightarrow> 'm run_state" where
  "at15 P m = call_goto_user_mode P (at14 P m)"

definition at16 :: "'m platform \<Rightarrow> 'm \<Rightarrow> 'm run_state" where
  "at16 P m = read_into_a P CSR_CYCLE (at15 P m)"

definition at18 :: "'m platform \<Rightarrow> 'm \<Rightarrow> 'm run_state" where
  "at18 P m = write_csr P CSR_CYCLE 0 (at16 P m)"

subsection \<open>The processor's registers\<close>

text \<open>
  Modelled from the spec: the processor (its privilege mode, its control and status
  registers and its check of register accesses) is hardware and not among the sources.
  The access rule is the one of the RISC-V privileged architecture: bits 11 and 10 of a
  register's address both set mark it read-only, bits 9 and 8 give the lowest privilege
  that may access it (the processor has user and machine mode only). So \<open>cycle\<close>, at
  address \<^verbatim>\<open>0xc00\<close>, is a user-level read-only register.
\<close>

datatype priv = User | Machine

record rv_state =
  priv :: priv
  csrs :: "csr_id \<Rightarrow> u32"

definition csr_read_only :: "csr_id \<Rightarrow> bool" where
  "csr_read_only c = (c div 1024 mod 4 = 3)"

definition csr_min_priv :: "csr_id \<Rightarrow> priv" where
  "csr_min_priv c = (if c div 256 mod 4 = 0 then User else Machine)"

definition csr_write_permitted :: "priv \<Rightarrow> csr_id \<Rightarrow> bool" where
  "csr_write_permitted p c =
     ((csr_min_priv c = User \<or> p = Machine) \<and> \<not> csr_read_only c)"

text \<open>
  The transitions of a register write that do not trap: the plain update of the
  register. With the access check enforced there is one only where the rule permits the
  write; with the check absent there is always one.
\<close>

inductive csr_write_step ::
  "bool \<Rightarrow> csr_id \<Rightarrow> u32 \<Rightarrow> 'x rv_state_scheme \<Rightarrow> 'x rv_state_scheme \<Rightarrow> bool"
  for enforced :: bool and c :: csr_id and v :: u32 where
  checked_write: "enforced \<Longrightarrow> csr_write_permitted (priv st) c \<Longrightarrow>
     csr_write_step enforced c v st (st\<lparr>csrs := (csrs st)(c := v)\<rparr>)"
| unchecked_write: "\<not> enforced \<Longrightarrow>
     csr_write_step enforced c v st (st\<lparr>csrs := (csrs st)(c := v)\<rparr>)"

text \<open>
  A sample platform and machine state, to evaluate the model on: the registers are plain
  storage, a read returns the register, a write updates it, and
  \<open>neorv32_cpu_goto_user_mode\<close> sets the privilege mode to user. The machine starts in
  machine mode with 7 in \<open>cycle\<close> and 6144 (\<^verbatim>\<open>0x1800\<close>) in \<open>mstatus\<close>.
\<close>

definition plain_platform :: "rv_state platform" where
  "plain_platform =
     \<lparr>neorv32_cpu_csr_read = (\<lambda>c st. (csrs st c, st)),
      neorv32_cpu_csr_write = (\<lambda>c v st. st\<lparr>csrs := (csrs st)(c := v)\<rparr>),
      neorv32_cpu_goto_user_mode = (\<lambda>st. st\<lparr>priv := User\<rparr>)\<rparr>"

definition reset_state :: rv_state where
  "reset_state = \<lparr>priv = Machine,
    csrs = (\<lambda>c. if c = CSR_CYCLE then 7
             else if c = CSR_MSTATUS then 6144 else 0)\<rparr>"

text \<open>
  The platform \<open>P\<close>, except that the read of register \<open>c\<close> in machine state \<open>m\<close>
  returns the value \<open>v\<close>; its effect on the machine is that of \<open>P\<close>.
\<close>

definition override_read :: "'m platform \<Rightarrow> csr_id \<Rightarrow> 'm \<Rightarrow> u32 \<Rightarrow> 'm platform" where
  "override_read P c m v =
     P\<lparr>neorv32_cpu_csr_read :=
         (\<lambda>c' m'. if c' = c \<and> m' = m then (v, snd (neorv32_cpu_csr_read P c' m'))
                  else neorv32_cpu_csr_read P c' m')\<rparr>"

text \<open>Whether an operation reads or writes register \<open>c\<close>.\<close>

fun accesses :: "csr_id \<Rightarrow> op \<Rightarrow> bool" where
  "accesses c (CsrRead c') = (c' = c)"
| "accesses c (CsrWrite c' v) = (c' = c)"
| "accesses c GotoUserMode = False"
| "accesses c (Return n) = False"

text \<open>Whether an operation writes register \<open>c\<close>.\<close>

fun writes :: "csr_id \<Rightarrow> op \<Rightarrow> bool" where
  "writes c (CsrWrite c' v) = (c' = c)"
| "writes c (CsrRead c') = False"
| "writes c GotoUserMode = False"
| "writes c (Return n) = False"

text \<open>
  The platform \<open>P\<close>, except that its reads return the values that \<open>f\<close> chooses; their
  effect on the machine is that of \<open>P\<close>.
\<close>

definition with_read_values :: "'m platform \<Rightarrow> (csr_id \<Rightarrow> 'm \<Rightarrow> u32) \<Rightarrow> 'm platform" where
  "with_read_values P f =
     P\<lparr>neorv32_cpu_csr_read := (\<lambda>c m. (f c m, snd (neorv32_cpu_csr_read P c m)))\<rparr>"

text \<open>
  The platform whose machine state is the list of the calls that the library has
  received, each with its arguments: every library function appends its own call. A
  read returns \<open>v\<close>.
\<close>

definition recording_platform :: "u32 \<Rightarrow> op list platform" where
  "recording_platform v =
     \<lparr>neorv32_cpu_csr_read = (\<lambda>c calls. (v, calls @ [CsrRead c])),
      neorv32_cpu_csr_write = (\<lambda>c w calls. calls @ [CsrWrite c w]),
      neorv32_cpu_goto_user_mode = (\<lambda>calls. calls @ [GotoUserMode])\<rparr>"

subsection \<open>A processor that traps\<close>

text \<open>
  Modelled from the spec: the processor's check of register reads and its traps, which
  are hardware and not among the sources. The rule for reads is the one of the RISC-V
  privileged architecture: the privilege must suffice, and in user mode a counter (the
  32 addresses from \<^verbatim>\<open>0xc00\<close>) is readable only while its bit of \<open>mcounteren\<close> is set;
  \<open>cycle\<close> has bit 0.
\<close>

definition csr_counter :: "csr_id \<Rightarrow> bool" where
  "csr_counter c = (3072 \<le> c \<and> c < 3104)"

definition csr_read_permitted :: "priv \<Rightarrow> u32 \<Rightarrow> csr_id \<Rightarrow> bool" where
  "csr_read_permitted p en c =
     ((csr_min_priv c = User \<or> p = Machine) \<and>
      (if p = User \<and> csr_counter c then bit en (nat (c - 3072)) else True))"

text \<open>
  The machine with a record of its traps: each refused access, with the mode in which
  it was attempted. A refused access changes no register, and the call returns to the
  caller in the mode it was made in; a refused read leaves \<open>junk\<close> as its value.
\<close>

record rv_trap_state = rv_state +
  traps :: "(priv \<times> op) list"

definition raise_trap :: "op \<Rightarrow> rv_trap_state \<Rightarrow> rv_trap_state" where
  "raise_trap x st = st\<lparr>traps := traps st @ [(priv st, x)]\<rparr>"

text \<open>
  The library on that machine, with the access check enforced or absent: a permitted
  access is the plain read or update of the register, and
  \<open>neorv32_cpu_goto_user_mode\<close> sets the privilege mode to user.
\<close>

definition rv_platform :: "bool \<Rightarrow> u32 \<Rightarrow> rv_trap_state platform" where
  "rv_platform enforced junk =
     \<lparr>neorv32_cpu_csr_read = (\<lambda>c st.
        if enforced \<and> \<not> csr_read_permitted (priv st) (csrs st CSR_MCOUNTEREN) c
        then (junk, raise_trap (CsrRead c) st) else (csrs st c, st)),
      neorv32_cpu_csr_write = (\<lambda>c v st.
        if enforced \<and> \<not> csr_write_permitted (priv st) c
        then raise_trap (CsrWrite c v) st else st\<lparr>csrs := (csrs st)(c := v)\<rparr>),
      neorv32_cpu_goto_user_mode = (\<lambda>st. st\<lparr>priv := User\<rparr>)\<rparr>"

text \<open>The sample machine state with no trap recorded; \<open>mcounteren\<close> is 0 in it.\<close>

definition trap_reset_state :: rv_trap_state where
  "trap_reset_state = \<lparr>priv = priv reset_state, csrs = csrs reset_state, traps = []\<rparr>"

section \<open>Basic facts\<close>

lemma trace_read_into_a: "trace (read_into_a P c r) = trace r @ [CsrRead c]"
  by (simp add: read_into_a_def split: prod.split)

lemma trace_call_goto_user_mode: "trace (call_goto_user_mode P r) = trace r @ [GotoUserMode]"
  by (simp add: call_goto_user_mode_def)

lemma trace_write_csr: "trace (write_csr P c v r) = trace r @ [CsrWrite c v]"
  by (simp add: write_csr_def)

lemma machine_read_into_a:
  "machine (read_into_a P c r) = snd (neorv32_cpu_csr_read P c (machine r))"
  by (simp add: read_into_a_def split: prod.split)

lemma machine_call_goto_user_mode:
  "machine (call_goto_user_mode P r) = neorv32_cpu_goto_user_mode P (machine r)"
  by (simp add: call_goto_user_mode_def)

lemma machine_write_csr:
  "machine (write_csr P c v r) = neorv32_cpu_csr_write P c v (machine r)"
  by (simp add: write_csr_def)

lemma main_at18: "main P m = return_stmt 0 (at18 P m)"
  by (simp add: main_def at18_def at16_def at15_def at14_def at12_def Let_def)

lemma trace_at18:
  "trace (at18 P m) =
     [CsrRead CSR_CYCLE, GotoUserMode, CsrRead CSR_CYCLE, CsrWrite CSR_CYCLE 0]"
  by (simp add: at18_def at16_def at15_def at14_def at12_def init_def
      trace_read_into_a trace_call_goto_user_mode trace_write_csr)

lemma steps_to_exit: "steps P (L12, init m) (Exit (fst (main P m)), snd (main P m))"
proof -
  have "step P (L12, init m) (L14, at14 P m)"
    unfolding at14_def at12_def by (rule line12)
  moreover have "step P (L14, at14 P m) (L15, at15 P m)"
    unfolding at15_def by (rule line14)
  moreover have "step P (L15, at15 P m) (L16, at16 P m)"
    unfolding at16_def by (rule line15)
  moreover have "step P (L16, at16 P m) (L18, at18 P m)"
    unfolding at18_def by (rule line16)
  moreover have "step P (L18, at18 P m) (Exit (fst (main P m)), snd (main P m))"
    unfolding main_at18 by (rule line18)
  ultimately show ?thesis
    by (meson rtranclp.rtrancl_into_rtrancl rtranclp.rtrancl_refl)
qed

lemma steps_to_at16: "steps P (L12, init m) (L16, at16 P m)"
proof -
  have "step P (L12, init m) (L14, at14 P m)"
    unfolding at14_def at12_def by (rule line12)
  moreover have "step P (L14, at14 P m) (L15, at15 P m)"
    unfolding at15_def by (rule line14)
  moreover have "step P (L15, at15 P m) (L16, at16 P m)"
    unfolding at16_def by (rule line15)
  ultimately show ?thesis
    by (meson rtranclp.rtrancl_into_rtrancl rtranclp.rtrancl_refl)
qed

text \<open>A statement has one successor, and the exit has none.\<close>

lemma step_deterministic: "step P c c1 \<Longrightarrow> step P c c2 \<Longrightarrow> c1 = c2"
  by (auto elim!: step.cases)

lemma no_step_from_exit: "\<not> step P (Exit n, r) c"
  by (auto elim: step.cases)

text \<open>A run from line 12 passes through six configurations and no other.\<close>

lemma reachable_cases:
  assumes "steps P (L12, init m) c"
  shows "c = (L12, at12 P m) \<or> c = (L14, at14 P m) \<or> c = (L15, at15 P m) \<or>
         c = (L16, at16 P m) \<or> c = (L18, at18 P m) \<or> c = (Exit 0, snd (main P m))"
  using assms
proof (induction rule: rtranclp_induct)
  case base
  then show ?case by (simp add: at12_def)
next
  case (step c c')
  from step.hyps(2) step.IH show ?case
    by (auto elim!: step.cases
        simp: at14_def at15_def at16_def at18_def main_at18 return_stmt_def)
qed

text \<open>The configuration after \<open>n\<close> steps; there is none after more than five.\<close>

lemma relpow_cases:
  "(step P ^^ n) (L12, init m) c \<Longrightarrow>
     (n = 0 \<and> c = (L12, at12 P m)) \<or> (n = 1 \<and> c = (L14, at14 P m)) \<or>
     (n = 2 \<and> c = (L15, at15 P m)) \<or> (n = 3 \<and> c = (L16, at16 P m)) \<or>
     (n = 4 \<and> c = (L18, at18 P m)) \<or> (n = 5 \<and> c = (Exit 0, snd (main P m)))"
proof (induction n arbitrary: c)
  case 0
  then show ?case by (simp add: at12_def)
next
  case (Suc n)
  from Suc.prems obtain c' where run: "(step P ^^ n) (L12, init m) c'" and last: "step P c' c"
    by auto
  from Suc.IH [OF run] last show ?case
    by (auto elim!: step.cases
        simp: at14_def at15_def at16_def at18_def main_at18 return_stmt_def)
qed

lemma five_steps: "(step P ^^ 5) (L12, init m) (Exit 0, snd (main P m))"
proof -
  have "step P (L12, init m) (L14, at14 P m)"
    unfolding at14_def at12_def by (rule line12)
  moreover have "step P (L14, at14 P m) (L15, at15 P m)"
    unfolding at15_def by (rule line14)
  moreover have "step P (L15, at15 P m) (L16, at16 P m)"
    unfolding at16_def by (rule line15)
  moreover have "step P (L16, at16 P m) (L18, at18 P m)"
    unfolding at18_def by (rule line16)
  moreover have "step P (L18, at18 P m) (Exit 0, snd (main P m))"
    using line18 [of P "at18 P m"] by (simp add: main_at18 return_stmt_def)
  ultimately show ?thesis
    by (auto simp add: numeral_eq_Suc intro!: relcomppI)
qed

lemma reachable_exit:
  assumes "steps P (L12, init m) (Exit n, r)"
  shows "n = 0 \<and> r = snd (main P m)"
  using reachable_cases [OF assms] by simp

lemma reachable_L15:
  assumes "steps P (L12, init m) (L15, r)"
  shows "r = at15 P m"
  using reachable_cases [OF assms] by simp

lemma reachable_L16:
  assumes "steps P (L12, init m) (L16, r)"
  shows "r = at16 P m"
  using reachable_cases [OF assms] by simp

lemma trace_at16:
  "trace (at16 P m) = [CsrRead CSR_CYCLE, GotoUserMode, CsrRead CSR_CYCLE]"
  by (simp add: at16_def at15_def at14_def at12_def init_def
      trace_read_into_a trace_call_goto_user_mode)

text \<open>
  Where the call on line 14 leaves the processor in user mode and a register read does
  not change the mode, the statements of lines 15 and 16 start in user mode.
\<close>

lemma user_mode_after_call:
  fixes P :: "'x rv_state_scheme platform"
  assumes "\<And>st. priv (neorv32_cpu_goto_user_mode P st) = User"
      and "\<And>c st. priv (snd (neorv32_cpu_csr_read P c st)) = priv st"
  shows "priv (machine (at15 P m)) = User" and "priv (machine (at16 P m)) = User"
  using assms
  by (simp_all add: at16_def at15_def machine_read_into_a machine_call_goto_user_mode)

text \<open>The sample run, evaluated.\<close>

lemma main_plain_platform:
  "main plain_platform reset_state =
     (0, \<lparr>machine = \<lparr>priv = User,
       csrs = (\<lambda>c. if c = CSR_CYCLE then 0
                else if c = CSR_MSTATUS then 6144 else 0)\<rparr>, local_a = Some 7,
          trace = [CsrRead CSR_CYCLE, GotoUserMode, CsrRead CSR_CYCLE,
                   CsrWrite CSR_CYCLE 0, Return 0]\<rparr>)"
  by (simp add: main_def Let_def read_into_a_def call_goto_user_mode_def write_csr_def
      return_stmt_def init_def plain_platform_def reset_state_def fun_eq_iff)

lemma at16_plain_platform:
  "at16 plain_platform reset_state =
     \<lparr>machine = \<lparr>priv = User,
       csrs = (\<lambda>c. if c = CSR_CYCLE then 7
                else if c = CSR_MSTATUS then 6144 else 0)\<rparr>,
      local_a = Some 7,
      trace = [CsrRead CSR_CYCLE, GotoUserMode, CsrRead CSR_CYCLE]\<rparr>"
  by (simp add: at16_def at15_def at14_def at12_def read_into_a_def
      call_goto_user_mode_def init_def plain_platform_def reset_state_def)

text \<open>Overriding the value of a read changes neither the other calls nor the read's effect.\<close>

lemma goto_user_mode_override_read:
  "neorv32_cpu_goto_user_mode (override_read P c m v) = neorv32_cpu_goto_user_mode P"
  by (simp add: override_read_def)

lemma csr_write_override_read:
  "neorv32_cpu_csr_write (override_read P c m v) = neorv32_cpu_csr_write P"
  by (simp add: override_read_def)

lemma csr_read_override_read:
  "snd (neorv32_cpu_csr_read (override_read P c m v) c' m') =
   snd (neorv32_cpu_csr_read P c' m')"
  by (simp add: override_read_def)

lemma machine_at18_override_read:
  "machine (at18 (override_read P c m' v) m) = machine (at18 P m)"
  by (simp add: at18_def at16_def at15_def at14_def at12_def machine_read_into_a
      machine_call_goto_user_mode machine_write_csr goto_user_mode_override_read
      csr_write_override_read csr_read_override_read)

lemma machine_main: "machine (snd (main P m)) = machine (at18 P m)"
  by (simp add: main_at18 return_stmt_def)

lemma fst_main: "fst (main P m) = 0"
  by (simp add: main_at18 return_stmt_def)

lemma trace_main:
  "trace (snd (main P m)) =
     [CsrRead CSR_CYCLE, GotoUserMode, CsrRead CSR_CYCLE, CsrWrite CSR_CYCLE 0, Return 0]"
  by (simp add: main_at18 return_stmt_def trace_at18)

text \<open>The final machine state and the final value of \<^verbatim>\<open>a\<close>, as the calls made.\<close>

lemma machine_at18_calls:
  "machine (at18 P m) =
     neorv32_cpu_csr_write P CSR_CYCLE 0
       (snd (neorv32_cpu_csr_read P CSR_CYCLE
         (neorv32_cpu_goto_user_mode P (snd (neorv32_cpu_csr_read P CSR_CYCLE m)))))"
  by (simp add: at18_def at16_def at15_def at14_def at12_def init_def machine_read_into_a
      machine_call_goto_user_mode machine_write_csr)

lemma machine_at16_calls:
  "machine (at16 P m) =
     snd (neorv32_cpu_csr_read P CSR_CYCLE
         (neorv32_cpu_goto_user_mode P (snd (neorv32_cpu_csr_read P CSR_CYCLE m))))"
  by (simp add: at16_def at15_def at14_def at12_def init_def machine_read_into_a
      machine_call_goto_user_mode)

lemma local_a_read_into_a:
  "local_a (read_into_a P c r) = Some (fst (neorv32_cpu_csr_read P c (machine r)))"
  by (simp add: read_into_a_def split: prod.split)

lemma local_a_main:
  "local_a (snd (main P m)) =
     Some (fst (neorv32_cpu_csr_read P CSR_CYCLE
         (neorv32_cpu_goto_user_mode P (snd (neorv32_cpu_csr_read P CSR_CYCLE m)))))"
  by (simp add: main_at18 return_stmt_def at18_def write_csr_def at16_def local_a_read_into_a
      at15_def at14_def at12_def init_def machine_read_into_a machine_call_goto_user_mode)

text \<open>Choosing the values of the reads changes neither the other calls nor a read's effect.\<close>

lemma goto_with_read_values:
  "neorv32_cpu_goto_user_mode (with_read_values P f) = neorv32_cpu_goto_user_mode P"
  by (simp add: with_read_values_def)

lemma write_with_read_values:
  "neorv32_cpu_csr_write (with_read_values P f) = neorv32_cpu_csr_write P"
  by (simp add: with_read_values_def)

lemma read_with_read_values:
  "neorv32_cpu_csr_read (with_read_values P f) c m = (f c m, snd (neorv32_cpu_csr_read P c m))"
  by (simp add: with_read_values_def)

text \<open>\<open>cycle\<close> on the processor that traps.\<close>

lemma cycle_read_permitted:
  "csr_read_permitted p en CSR_CYCLE = (p = Machine \<or> bit en 0)"
  by (cases p) (simp_all add: csr_read_permitted_def csr_min_priv_def csr_counter_def CSR_CYCLE_def)

lemma cycle_write_refused: "\<not> csr_write_permitted p CSR_CYCLE"
  by (simp add: csr_write_permitted_def csr_read_only_def CSR_CYCLE_def)

lemma rv_read_cycle:
  "neorv32_cpu_csr_read (rv_platform e junk) CSR_CYCLE st =
     (if e \<and> priv st = User \<and> \<not> bit (csrs st CSR_MCOUNTEREN) 0
      then (junk, st\<lparr>traps := traps st @ [(User, CsrRead CSR_CYCLE)]\<rparr>)
      else (csrs st CSR_CYCLE, st))"
  by (cases "priv st") (auto simp add: rv_platform_def cycle_read_permitted raise_trap_def)

lemma rv_write_cycle:
  "neorv32_cpu_csr_write (rv_platform e junk) CSR_CYCLE v st =
     (if e then st\<lparr>traps := traps st @ [(priv st, CsrWrite CSR_CYCLE v)]\<rparr>
      else st\<lparr>csrs := (csrs st)(CSR_CYCLE := v)\<rparr>)"
  by (simp add: rv_platform_def cycle_write_refused raise_trap_def)

lemma rv_goto_user_mode:
  "neorv32_cpu_goto_user_mode (rv_platform e junk) st = st\<lparr>priv := User\<rparr>"
  by (simp add: rv_platform_def)

lemma rv_machine_at16:
  "machine (at16 (rv_platform e junk) m) =
     m\<lparr>priv := User,
       traps := traps m @
         (if e \<and> priv m = User \<and> \<not> bit (csrs m CSR_MCOUNTEREN) 0
          then [(User, CsrRead CSR_CYCLE)] else []) @
         (if e \<and> \<not> bit (csrs m CSR_MCOUNTEREN) 0
          then [(User, CsrRead CSR_CYCLE)] else [])\<rparr>"
  by (simp add: machine_at16_calls rv_read_cycle rv_goto_user_mode)

lemma rv_write_step_iff:
  fixes st :: rv_trap_state
  shows "csr_write_step e c v st st' =
     (neorv32_cpu_csr_write (rv_platform e junk) c v st = st' \<and> traps st' = traps st)"
  by (auto simp add: rv_platform_def raise_trap_def elim!: csr_write_step.cases
      intro: checked_write unchecked_write)

section \<open>The claims\<close>

text \<open>
  C1. On every execution, that is for every behaviour \<open>P\<close> of the three library functions
  and every initial machine state \<open>m\<close>, \<open>main\<close> performs exactly these operations in this
  order: a read of \<open>CSR_CYCLE\<close>, a call of \<open>neorv32_cpu_goto_user_mode\<close>, a second read
  of \<open>CSR_CYCLE\<close>, a write of 0 to \<open>CSR_CYCLE\<close>, and the return of 0. The final machine
  state is the one that these four calls produce in this order, \<^verbatim>\<open>a\<close> holds the value of
  the second read, and on the platform that records the calls it receives, the calls
  recorded are these four and no other.
\<close>

theorem main_operations:
  "trace (snd (main P m)) =
     [CsrRead CSR_CYCLE, GotoUserMode, CsrRead CSR_CYCLE, CsrWrite CSR_CYCLE 0, Return 0] \<and>
   machine (snd (main P m)) =
     neorv32_cpu_csr_write P CSR_CYCLE 0
       (snd (neorv32_cpu_csr_read P CSR_CYCLE
         (neorv32_cpu_goto_user_mode P (snd (neorv32_cpu_csr_read P CSR_CYCLE m))))) \<and>
   local_a (snd (main P m)) =
     Some (fst (neorv32_cpu_csr_read P CSR_CYCLE
         (neorv32_cpu_goto_user_mode P (snd (neorv32_cpu_csr_read P CSR_CYCLE m))))) \<and>
   fst (main P m) = 0 \<and>
   machine (snd (main (recording_platform v) calls)) =
     calls @ [CsrRead CSR_CYCLE, GotoUserMode, CsrRead CSR_CYCLE, CsrWrite CSR_CYCLE 0]"
proof -
  have calls: "machine (snd (main (recording_platform v) calls)) =
      calls @ [CsrRead CSR_CYCLE, GotoUserMode, CsrRead CSR_CYCLE, CsrWrite CSR_CYCLE 0]"
    by (simp add: machine_main machine_at18_calls recording_platform_def)
  with trace_main [of P m] machine_at18_calls [of P m] local_a_main [of P m] fst_main [of P m]
  show ?thesis
    by (simp add: machine_main)
qed

text \<open>
  C2. For every initial machine state \<open>m\<close>, \<open>main\<close> terminates normally and returns 0: the
  run from line 12 reaches the exit with value 0 in five steps and stops there, no run
  from line 12 is longer than five steps, and the value that \<open>main\<close> returns is 0.
\<close>

theorem main_terminates_with_0:
  "(step P ^^ 5) (L12, init m) (Exit 0, snd (main P m)) \<and>
   (\<forall>c. \<not> step P (Exit 0, snd (main P m)) c) \<and>
   (\<forall>n c. (step P ^^ n) (L12, init m) c \<longrightarrow> n \<le> 5) \<and>
   fst (main P m) = 0"
proof -
  have bound: "n \<le> 5" if "(step P ^^ n) (L12, init m) c" for n c
    using relpow_cases [OF that] by auto
  with five_steps [of P m] no_step_from_exit [of P 0] fst_main [of P m] show ?thesis
    by blast
qed

theorem main_terminates_with_0_witness:
  "(step plain_platform ^^ 5) (L12, init reset_state)
     (Exit 0, \<lparr>machine = \<lparr>priv = User,
                 csrs = (\<lambda>c. if c = CSR_CYCLE then 0
                          else if c = CSR_MSTATUS then 6144 else 0)\<rparr>,
               local_a = Some 7,
               trace = [CsrRead CSR_CYCLE, GotoUserMode, CsrRead CSR_CYCLE,
                        CsrWrite CSR_CYCLE 0, Return 0]\<rparr>) \<and>
   (5::nat) \<le> 5 \<and> fst (main plain_platform reset_state) = 0"
proof -
  from main_terminates_with_0 [of plain_platform reset_state]
  have run: "(step plain_platform ^^ 5) (L12, init reset_state)
      (Exit 0, snd (main plain_platform reset_state))"
    and bound: "\<forall>n c. (step plain_platform ^^ n) (L12, init reset_state) c \<longrightarrow> n \<le> 5"
    and ret: "fst (main plain_platform reset_state) = 0"
    by blast+
  from bound run have "(5::nat) \<le> 5"
    by blast
  with run ret show ?thesis
    by (simp add: main_plain_platform)
qed

text \<open>
  C8. \<open>main\<close> is deterministic: for a fixed behaviour \<open>P\<close> of the three library
  functions, two completed runs from the same initial machine state \<open>m\<close> return the same
  value, have performed the same operations and end in the same state (machine and
  local variable); and at every configuration the next one is determined.
\<close>

theorem main_deterministic:
  assumes "steps P (L12, init m) (Exit n1, r1)"
      and "steps P (L12, init m) (Exit n2, r2)"
  shows "n1 = n2 \<and> trace r1 = trace r2 \<and> machine r1 = machine r2 \<and> r1 = r2 \<and>
         (\<forall>c c1 c2. step P c c1 \<and> step P c c2 \<longrightarrow> c1 = c2)"
proof -
  from assms(1) have "n1 = 0 \<and> r1 = snd (main P m)"
    by (rule reachable_exit)
  moreover from assms(2) have "n2 = 0 \<and> r2 = snd (main P m)"
    by (rule reachable_exit)
  moreover have "\<forall>c c1 c2. step P c c1 \<and> step P c c2 \<longrightarrow> c1 = c2"
    by (blast intro: step_deterministic)
  ultimately show ?thesis
    by simp
qed

theorem main_deterministic_witness:
  "steps plain_platform (L12, init reset_state)
     (Exit 0, \<lparr>machine = \<lparr>priv = User,
       csrs = (\<lambda>c. if c = CSR_CYCLE then 0
                else if c = CSR_MSTATUS then 6144 else 0)\<rparr>, local_a = Some 7,
               trace = [CsrRead CSR_CYCLE, GotoUserMode, CsrRead CSR_CYCLE,
                        CsrWrite CSR_CYCLE 0, Return 0]\<rparr>) \<and>
   steps plain_platform (L12, init reset_state)
     (Exit (fst (main plain_platform reset_state)), snd (main plain_platform reset_state)) \<and>
   0 = fst (main plain_platform reset_state) \<and>
   [CsrRead CSR_CYCLE, GotoUserMode, CsrRead CSR_CYCLE, CsrWrite CSR_CYCLE 0, Return 0] =
     trace (snd (main plain_platform reset_state)) \<and>
   \<lparr>priv = User,
     csrs = (\<lambda>c. if c = CSR_CYCLE then 0
              else if c = CSR_MSTATUS then 6144 else 0)\<rparr> = machine (snd (main plain_platform reset_state))"
proof -
  have run: "steps plain_platform (L12, init reset_state)
     (Exit (fst (main plain_platform reset_state)), snd (main plain_platform reset_state))"
    by (rule steps_to_exit)
  then have run': "steps plain_platform (L12, init reset_state)
     (Exit 0, \<lparr>machine = \<lparr>priv = User,
       csrs = (\<lambda>c. if c = CSR_CYCLE then 0
                else if c = CSR_MSTATUS then 6144 else 0)\<rparr>, local_a = Some 7,
               trace = [CsrRead CSR_CYCLE, GotoUserMode, CsrRead CSR_CYCLE,
                        CsrWrite CSR_CYCLE 0, Return 0]\<rparr>)"
    by (simp add: main_plain_platform)
  from main_deterministic [OF run' run] run run' show ?thesis
    by simp
qed

text \<open>
  C5. \<open>main\<close> has no error handling. No statement inspects or branches on a result: the
  line that follows a statement is the same whatever the library functions do and return
  (two platforms \<open>P\<close> and \<open>Q\<close>, over any machines, in any two states at the same line
  \<open>l\<close>); line 15 overwrites \<^verbatim>\<open>a\<close> and the statements of lines 14, 16 and 18 do the same
  whatever \<^verbatim>\<open>a\<close> holds, leaving it as it is; \<open>neorv32_cpu_goto_user_mode\<close> returns no
  value. So when the reads return any other values (chosen by \<open>f\<close>), \<open>main\<close> performs
  the same operations, ends in the same machine state and returns the same value, only
  \<^verbatim>\<open>a\<close> differs. The value returned is 0 for every behaviour of the library, and a run
  that reaches the exit reaches it with 0.
\<close>

theorem main_no_error_handling:
  "(step P (l, r) (l1, r1) \<and> step Q (l, q) (l2, q2) \<longrightarrow> l1 = l2) \<and>
   fst (main P m) = 0 \<and>
   (steps P (L12, init m) (Exit n, r') \<longrightarrow> n = 0) \<and>
   fst (main (with_read_values P f) m) = 0 \<and>
   trace (snd (main (with_read_values P f) m)) = trace (snd (main P m)) \<and>
   machine (snd (main (with_read_values P f) m)) = machine (snd (main P m)) \<and>
   local_a (snd (main (with_read_values P f) m)) =
     Some (f CSR_CYCLE (machine (at15 P m))) \<and>
   read_into_a P c (s\<lparr>local_a := x\<rparr>) = read_into_a P c s \<and>
   call_goto_user_mode P (s\<lparr>local_a := x\<rparr>) = (call_goto_user_mode P s)\<lparr>local_a := x\<rparr> \<and>
   write_csr P c v (s\<lparr>local_a := x\<rparr>) = (write_csr P c v s)\<lparr>local_a := x\<rparr> \<and>
   return_stmt k (s\<lparr>local_a := x\<rparr>) =
     (fst (return_stmt k s), (snd (return_stmt k s))\<lparr>local_a := x\<rparr>)"
proof -
  have next_line: "l1 = l2" if "step P (l, r) (l1, r1)" and "step Q (l, q) (l2, q2)"
    using that by (auto elim!: step.cases simp: return_stmt_def)
  have at_exit: "n = 0" if "steps P (L12, init m) (Exit n, r')"
    using reachable_exit [OF that] by simp
  have ops: "trace (snd (main (with_read_values P f) m)) = trace (snd (main P m))"
    by (simp only: trace_main)
  have final: "machine (snd (main (with_read_values P f) m)) = machine (snd (main P m))"
    by (simp add: machine_main machine_at18_calls goto_with_read_values
        write_with_read_values read_with_read_values)
  have val: "local_a (snd (main (with_read_values P f) m)) =
      Some (f CSR_CYCLE (machine (at15 P m)))"
    by (simp add: local_a_main goto_with_read_values read_with_read_values
        at15_def at14_def at12_def init_def machine_read_into_a machine_call_goto_user_mode)
  have stmts:
    "read_into_a P c (s\<lparr>local_a := x\<rparr>) = read_into_a P c s"
    "call_goto_user_mode P (s\<lparr>local_a := x\<rparr>) = (call_goto_user_mode P s)\<lparr>local_a := x\<rparr>"
    "write_csr P c v (s\<lparr>local_a := x\<rparr>) = (write_csr P c v s)\<lparr>local_a := x\<rparr>"
    "return_stmt k (s\<lparr>local_a := x\<rparr>) =
       (fst (return_stmt k s), (snd (return_stmt k s))\<lparr>local_a := x\<rparr>)"
    by (simp_all add: read_into_a_def call_goto_user_mode_def write_csr_def return_stmt_def
        split: prod.split)
  from next_line at_exit ops final val stmts fst_main [of P m]
    fst_main [of "with_read_values P f" m]
  show ?thesis
    by blast
qed


theorem main_no_error_handling_witness:
  "step plain_platform (L12, init reset_state)
     (L14, read_into_a plain_platform CSR_CYCLE (init reset_state)) \<and>
   step (with_read_values plain_platform (\<lambda>c st. 99)) (L12, init reset_state)
     (L14, read_into_a (with_read_values plain_platform (\<lambda>c st. 99)) CSR_CYCLE
        (init reset_state)) \<and>
   local_a (read_into_a plain_platform CSR_CYCLE (init reset_state)) = Some 7 \<and>
   local_a (read_into_a (with_read_values plain_platform (\<lambda>c st. 99)) CSR_CYCLE
        (init reset_state)) = Some 99 \<and>
   L14 = L14 \<and>
   fst (main plain_platform reset_state) = 0 \<and>
   steps plain_platform (L12, init reset_state)
     (Exit 0, snd (main plain_platform reset_state)) \<and>
   (0::int) = 0 \<and>
   fst (main (with_read_values plain_platform (\<lambda>c st. 99)) reset_state) = 0 \<and>
   local_a (snd (main plain_platform reset_state)) = Some 7 \<and>
   local_a (snd (main (with_read_values plain_platform (\<lambda>c st. 99)) reset_state)) = Some 99 \<and>
   machine (snd (main (with_read_values plain_platform (\<lambda>c st. 99)) reset_state)) =
     \<lparr>priv = User,
       csrs = (\<lambda>c. if c = CSR_CYCLE then 0
                else if c = CSR_MSTATUS then 6144 else 0)\<rparr>"
proof -
  have s1: "step plain_platform (L12, init reset_state)
     (L14, read_into_a plain_platform CSR_CYCLE (init reset_state))"
    by (rule line12)
  have s2: "step (with_read_values plain_platform (\<lambda>c st. 99)) (L12, init reset_state)
     (L14, read_into_a (with_read_values plain_platform (\<lambda>c st. 99)) CSR_CYCLE
        (init reset_state))"
    by (rule line12)
  have run: "steps plain_platform (L12, init reset_state)
     (Exit 0, snd (main plain_platform reset_state))"
    using steps_to_exit [of plain_platform reset_state] by (simp add: fst_main)
  have vals:
    "local_a (read_into_a plain_platform CSR_CYCLE (init reset_state)) = Some 7"
    "local_a (read_into_a (with_read_values plain_platform (\<lambda>c st. 99)) CSR_CYCLE
        (init reset_state)) = Some 99"
    by (simp_all add: read_into_a_def with_read_values_def init_def plain_platform_def
        reset_state_def)
  have plain: "local_a (snd (main plain_platform reset_state)) = Some 7"
    "machine (snd (main plain_platform reset_state)) =
     \<lparr>priv = User,
       csrs = (\<lambda>c. if c = CSR_CYCLE then 0
                else if c = CSR_MSTATUS then 6144 else 0)\<rparr>"
    by (simp_all add: main_plain_platform)
  from main_no_error_handling
    [where P = plain_platform and l = L12 and r = "init reset_state" and ?l1.0 = L14
      and ?r1.0 = "read_into_a plain_platform CSR_CYCLE (init reset_state)"
      and Q = "with_read_values plain_platform (\<lambda>c st. 99)" and q = "init reset_state"
      and ?l2.0 = L14
      and ?q2.0 = "read_into_a (with_read_values plain_platform (\<lambda>c st. 99)) CSR_CYCLE
        (init reset_state)"
      and m = reset_state and n = 0 and r' = "snd (main plain_platform reset_state)"
      and f = "\<lambda>c st. 99"]
    s1 s2 run vals plain
  show ?thesis
    by simp
qed

text \<open>
  C9. The value of the first read of \<open>CSR_CYCLE\<close> is dead. It is stored into \<^verbatim>\<open>a\<close>;
  lines 14 and 15 then overwrite \<^verbatim>\<open>a\<close> without reading it. So a run in which the first
  read returns another value \<open>v\<close> (the platform \<open>override_read P CSR_CYCLE m v\<close>,
  started in \<open>m\<close>) performs the same operations, ends in the same machine state and
  returns the same value.
\<close>

theorem first_read_dead:
  "local_a (at14 (override_read P CSR_CYCLE m v) m) = Some v \<and>
   read_into_a P CSR_CYCLE (call_goto_user_mode P (r\<lparr>local_a := x\<rparr>)) =
     read_into_a P CSR_CYCLE (call_goto_user_mode P r) \<and>
   trace (snd (main (override_read P CSR_CYCLE m v) m)) = trace (snd (main P m)) \<and>
   machine (snd (main (override_read P CSR_CYCLE m v) m)) = machine (snd (main P m)) \<and>
   fst (main (override_read P CSR_CYCLE m v) m) = fst (main P m)"
proof -
  have stored: "local_a (at14 (override_read P CSR_CYCLE m v) m) = Some v"
    by (simp add: at14_def at12_def read_into_a_def init_def override_read_def
        split: prod.split)
  have overwritten:
    "read_into_a P CSR_CYCLE (call_goto_user_mode P (r\<lparr>local_a := x\<rparr>)) =
     read_into_a P CSR_CYCLE (call_goto_user_mode P r)"
    by (simp add: read_into_a_def call_goto_user_mode_def split: prod.split)
  have ops: "trace (snd (main (override_read P CSR_CYCLE m v) m)) = trace (snd (main P m))"
    by (simp only: trace_main)
  have final: "machine (snd (main (override_read P CSR_CYCLE m v) m)) =
      machine (snd (main P m))"
    by (simp only: machine_main machine_at18_override_read)
  have ret: "fst (main (override_read P CSR_CYCLE m v) m) = fst (main P m)"
    by (simp only: fst_main)
  from stored overwritten ops final ret show ?thesis
    by blast
qed

text \<open>
  C7. \<open>main\<close> triggers exactly one privilege-mode switch: the call of
  \<open>neorv32_cpu_goto_user_mode\<close> occurs once among its operations, right after the first
  read of \<open>CSR_CYCLE\<close> and before the second, and what follows it is a read, a write and
  the return, none of which raises the privilege. Where the call leaves the processor in
  user mode and a register read does not change the mode, every register access after
  the call (the statements of lines 15 and 16) starts in user mode.
\<close>

theorem one_switch_to_user_mode:
  fixes P :: "'x rv_state_scheme platform"
  assumes "\<And>st. priv (neorv32_cpu_goto_user_mode P st) = User"
      and "\<And>c st. priv (snd (neorv32_cpu_csr_read P c st)) = priv st"
      and "steps P (L12, init m) (l, r)"
      and "l = L15 \<or> l = L16"
  shows "trace (snd (main P m)) =
           [CsrRead CSR_CYCLE] @ GotoUserMode #
           [CsrRead CSR_CYCLE, CsrWrite CSR_CYCLE 0, Return 0] \<and>
         count_list (trace (snd (main P m))) GotoUserMode = 1 \<and>
         GotoUserMode \<in> set (trace r) \<and>
         priv (machine r) = User"
proof -
  have ops: "trace (snd (main P m)) =
      [CsrRead CSR_CYCLE] @ GotoUserMode #
      [CsrRead CSR_CYCLE, CsrWrite CSR_CYCLE 0, Return 0]"
    by (simp add: trace_main)
  have once: "count_list (trace (snd (main P m))) GotoUserMode = 1"
    by (simp add: trace_main)
  from assms(4) have "GotoUserMode \<in> set (trace r) \<and> priv (machine r) = User"
  proof
    assume "l = L15"
    with assms(3) have "r = at15 P m"
      by (simp add: reachable_L15)
    then show ?thesis
      using user_mode_after_call(1) [of P m, OF assms(1,2)]
      by (simp add: at15_def trace_call_goto_user_mode)
  next
    assume "l = L16"
    with assms(3) have "r = at16 P m"
      by (simp add: reachable_L16)
    then show ?thesis
      using user_mode_after_call(2) [of P m, OF assms(1,2)]
      by (simp add: trace_at16)
  qed
  with ops once show ?thesis
    by blast
qed

theorem one_switch_to_user_mode_witness:
  "(\<forall>st. priv (neorv32_cpu_goto_user_mode plain_platform st) = User) \<and>
   (\<forall>c st. priv (snd (neorv32_cpu_csr_read plain_platform c st)) = priv st) \<and>
   steps plain_platform (L12, init reset_state)
     (L16, \<lparr>machine = \<lparr>priv = User,
       csrs = (\<lambda>c. if c = CSR_CYCLE then 7
                else if c = CSR_MSTATUS then 6144 else 0)\<rparr>,
            local_a = Some 7,
            trace = [CsrRead CSR_CYCLE, GotoUserMode, CsrRead CSR_CYCLE]\<rparr>) \<and>
   priv reset_state = Machine \<and>
   trace (snd (main plain_platform reset_state)) =
     [CsrRead CSR_CYCLE, GotoUserMode, CsrRead CSR_CYCLE, CsrWrite CSR_CYCLE 0, Return 0] \<and>
   count_list (trace (snd (main plain_platform reset_state))) GotoUserMode = 1 \<and>
   priv (machine (at16 plain_platform reset_state)) = User"
proof -
  have h1: "priv (neorv32_cpu_goto_user_mode plain_platform st) = User" for st
    by (simp add: plain_platform_def)
  have h2: "priv (snd (neorv32_cpu_csr_read plain_platform c st)) = priv st" for c st
    by (simp add: plain_platform_def)
  have h3: "steps plain_platform (L12, init reset_state)
      (L16, at16 plain_platform reset_state)"
    by (rule steps_to_at16)
  have h4: "L16 = L15 \<or> L16 = L16"
    by simp
  have h5: "priv reset_state = Machine"
    by (simp add: reset_state_def)
  from one_switch_to_user_mode [of plain_platform reset_state L16
      "at16 plain_platform reset_state", OF h1 h2 h3 h4] h1 h2 h3 h5
  show ?thesis
    by (simp add: at16_plain_platform)
qed

text \<open>
  C3. On the processor that traps, from every machine state \<open>m\<close>. When the run reaches
  the write of line 16, the operations performed are the first read, the call and the
  second read, the machine state is the one these three calls produce, and the processor
  is in user mode: the second read and the write are issued after the call, at user
  privilege. \<open>main\<close> never writes \<open>CSR_MCOUNTEREN\<close>: no operation of it does, and the
  registers at line 16 are those of \<open>m\<close>; so with the check enforced the second read
  traps in user mode unless bit 0 of \<open>mcounteren\<close> was set in \<open>m\<close>. With the check
  enforced, the write of 0 to \<open>CSR_CYCLE\<close> has no transition that does not trap from that
  state: the write of \<open>main\<close> traps in user mode and the registers stay those of \<open>m\<close>.
  With the check absent it has exactly one, the plain update of the register, and that
  is what the write of \<open>main\<close> does. A write of the library is a transition of the step
  relation exactly when it returns without a trap.
\<close>

theorem write_of_cycle_in_user_mode:
  assumes "steps (rv_platform True junk) (L12, init m) (L16, r)"
      and "steps (rv_platform False junk) (L12, init m) (L16, q)"
  shows "trace r = [CsrRead CSR_CYCLE, GotoUserMode, CsrRead CSR_CYCLE] \<and>
         machine r =
           snd (neorv32_cpu_csr_read (rv_platform True junk) CSR_CYCLE
             (neorv32_cpu_goto_user_mode (rv_platform True junk)
               (snd (neorv32_cpu_csr_read (rv_platform True junk) CSR_CYCLE m)))) \<and>
         priv (machine r) = User \<and>
         csrs (machine r) = csrs m \<and>
         \<not> list_ex (writes CSR_MCOUNTEREN) (trace (snd (main (rv_platform True junk) m))) \<and>
         traps (machine r) = traps m @
           (if priv m = User \<and> \<not> bit (csrs m CSR_MCOUNTEREN) 0
            then [(User, CsrRead CSR_CYCLE)] else []) @
           (if bit (csrs m CSR_MCOUNTEREN) 0 then [] else [(User, CsrRead CSR_CYCLE)]) \<and>
         (\<forall>st'. \<not> csr_write_step True CSR_CYCLE 0 (machine r) st') \<and>
         machine (snd (main (rv_platform True junk) m)) =
           (machine r)\<lparr>traps := traps (machine r) @ [(User, CsrWrite CSR_CYCLE 0)]\<rparr> \<and>
         csrs (machine (snd (main (rv_platform True junk) m))) = csrs m \<and>
         priv (machine q) = User \<and>
         (\<forall>st'. csr_write_step False CSR_CYCLE 0 (machine q) st' =
            (st' = machine (snd (main (rv_platform False junk) m)))) \<and>
         machine (snd (main (rv_platform False junk) m)) =
           m\<lparr>priv := User, csrs := (csrs m)(CSR_CYCLE := 0)\<rparr> \<and>
         (\<forall>e c v st st'. csr_write_step e c v st st' =
            (neorv32_cpu_csr_write (rv_platform e junk) c v st = st' \<and> traps st' = traps st))"
proof -
  from assms(1) have r: "r = at16 (rv_platform True junk) m"
    by (rule reachable_L16)
  from assms(2) have q: "q = at16 (rv_platform False junk) m"
    by (rule reachable_L16)
  have ops: "trace r = [CsrRead CSR_CYCLE, GotoUserMode, CsrRead CSR_CYCLE]"
    by (simp add: r trace_at16)
  have calls: "machine r =
      snd (neorv32_cpu_csr_read (rv_platform True junk) CSR_CYCLE
        (neorv32_cpu_goto_user_mode (rv_platform True junk)
          (snd (neorv32_cpu_csr_read (rv_platform True junk) CSR_CYCLE m))))"
    by (simp only: r machine_at16_calls)
  have user: "priv (machine r) = User" "priv (machine q) = User"
    by (simp_all add: r q rv_machine_at16)
  have regs: "csrs (machine r) = csrs m"
    by (simp add: r rv_machine_at16)
  have no_enable:
    "\<not> list_ex (writes CSR_MCOUNTEREN) (trace (snd (main (rv_platform True junk) m)))"
    by (simp add: trace_main CSR_MCOUNTEREN_def CSR_CYCLE_def)
  have trapped: "traps (machine r) = traps m @
      (if priv m = User \<and> \<not> bit (csrs m CSR_MCOUNTEREN) 0
       then [(User, CsrRead CSR_CYCLE)] else []) @
      (if bit (csrs m CSR_MCOUNTEREN) 0 then [] else [(User, CsrRead CSR_CYCLE)])"
    by (simp add: r rv_machine_at16)
  have none: "\<not> csr_write_step True CSR_CYCLE 0 (machine r) st'" for st'
    using cycle_write_refused by (auto elim: csr_write_step.cases)
  have write_traps: "machine (snd (main (rv_platform True junk) m)) =
      (machine r)\<lparr>traps := traps (machine r) @ [(User, CsrWrite CSR_CYCLE 0)]\<rparr>"
    using user(1) by (simp add: machine_main at18_def machine_write_csr rv_write_cycle r)
  have kept: "csrs (machine (snd (main (rv_platform True junk) m))) = csrs m"
    by (simp add: write_traps regs)
  have plain: "machine (snd (main (rv_platform False junk) m)) =
      (machine q)\<lparr>csrs := (csrs (machine q))(CSR_CYCLE := 0)\<rparr>"
    by (simp add: machine_main at18_def machine_write_csr rv_write_cycle q)
  have one: "csr_write_step False CSR_CYCLE 0 (machine q) st' =
      (st' = machine (snd (main (rv_platform False junk) m)))" for st'
    unfolding plain by (auto elim: csr_write_step.cases intro: unchecked_write)
  have final: "machine (snd (main (rv_platform False junk) m)) =
      m\<lparr>priv := User, csrs := (csrs m)(CSR_CYCLE := 0)\<rparr>"
    by (simp add: plain q rv_machine_at16)
  have link: "csr_write_step e c v st st' =
      (neorv32_cpu_csr_write (rv_platform e junk) c v st = st' \<and> traps st' = traps st)"
    for e c v st st'
    by (rule rv_write_step_iff)
  from ops calls user regs no_enable trapped none write_traps kept one final link
  show ?thesis
    by blast
qed


theorem write_of_cycle_in_user_mode_witness:
  "steps (rv_platform True 0) (L12, init trap_reset_state)
     (L16, at16 (rv_platform True 0) trap_reset_state) \<and>
   steps (rv_platform False 0) (L12, init trap_reset_state)
     (L16, at16 (rv_platform False 0) trap_reset_state) \<and>
   priv trap_reset_state = Machine \<and>
   csrs trap_reset_state CSR_MCOUNTEREN = 0 \<and>
   csrs trap_reset_state CSR_CYCLE = 7 \<and>
   priv (machine (at16 (rv_platform True 0) trap_reset_state)) = User \<and>
   traps (machine (at16 (rv_platform True 0) trap_reset_state)) =
     [(User, CsrRead CSR_CYCLE)] \<and>
   traps (machine (snd (main (rv_platform True 0) trap_reset_state))) =
     [(User, CsrRead CSR_CYCLE), (User, CsrWrite CSR_CYCLE 0)] \<and>
   csrs (machine (snd (main (rv_platform True 0) trap_reset_state))) CSR_CYCLE = 7 \<and>
   csrs (machine (snd (main (rv_platform False 0) trap_reset_state))) CSR_CYCLE = 0 \<and>
   traps (machine (snd (main (rv_platform False 0) trap_reset_state))) = []"
proof -
  have h1: "steps (rv_platform True 0) (L12, init trap_reset_state)
      (L16, at16 (rv_platform True 0) trap_reset_state)"
    by (rule steps_to_at16)
  have h2: "steps (rv_platform False 0) (L12, init trap_reset_state)
      (L16, at16 (rv_platform False 0) trap_reset_state)"
    by (rule steps_to_at16)
  have start: "priv trap_reset_state = Machine" "csrs trap_reset_state CSR_MCOUNTEREN = 0"
    "csrs trap_reset_state CSR_CYCLE = 7" "traps trap_reset_state = []"
    by (simp_all add: trap_reset_state_def reset_state_def CSR_MCOUNTEREN_def CSR_CYCLE_def
        CSR_MSTATUS_def)
  from write_of_cycle_in_user_mode [OF h1 h2]
  have user: "priv (machine (at16 (rv_platform True 0) trap_reset_state)) = User"
    and regs: "csrs (machine (snd (main (rv_platform True 0) trap_reset_state))) =
      csrs trap_reset_state"
    and read_trap: "traps (machine (at16 (rv_platform True 0) trap_reset_state)) =
      traps trap_reset_state @
      (if priv trap_reset_state = User \<and> \<not> bit (csrs trap_reset_state CSR_MCOUNTEREN) 0
       then [(User, CsrRead CSR_CYCLE)] else []) @
      (if bit (csrs trap_reset_state CSR_MCOUNTEREN) 0 then []
       else [(User, CsrRead CSR_CYCLE)])"
    and write_trap: "machine (snd (main (rv_platform True 0) trap_reset_state)) =
      (machine (at16 (rv_platform True 0) trap_reset_state))
        \<lparr>traps := traps (machine (at16 (rv_platform True 0) trap_reset_state)) @
           [(User, CsrWrite CSR_CYCLE 0)]\<rparr>"
    and absent: "machine (snd (main (rv_platform False 0) trap_reset_state)) =
      trap_reset_state\<lparr>priv := User, csrs := (csrs trap_reset_state)(CSR_CYCLE := 0)\<rparr>"
    by blast+
  from read_trap start
  have t16: "traps (machine (at16 (rv_platform True 0) trap_reset_state)) =
      [(User, CsrRead CSR_CYCLE)]"
    by simp
  from write_trap t16
  have t18: "traps (machine (snd (main (rv_platform True 0) trap_reset_state))) =
      [(User, CsrRead CSR_CYCLE), (User, CsrWrite CSR_CYCLE 0)]"
    by simp
  from regs start
  have kept: "csrs (machine (snd (main (rv_platform True 0) trap_reset_state))) CSR_CYCLE = 7"
    by simp
  from absent start
  have cleared: "csrs (machine (snd (main (rv_platform False 0) trap_reset_state))) CSR_CYCLE = 0"
    "traps (machine (snd (main (rv_platform False 0) trap_reset_state))) = []"
    by simp_all
  from h1 h2 start user t16 t18 kept cleared show ?thesis
    by blast
qed

text \<open>
  C6. The only register that a statement of \<open>main\<close> writes is \<open>CSR_CYCLE\<close>: no operation
  of \<open>main\<close> writes \<open>CSR_MSTATUS\<close>, \<open>CSR_MCOUNTEREN\<close>, register 768 or any other
  register. So a register \<open>c\<close> other than \<open>CSR_CYCLE\<close> changes during a run only inside
  \<open>neorv32_cpu_goto_user_mode\<close> or by the hardware: where a read leaves \<open>c\<close> as it is and
  a write to another register leaves \<open>c\<close> as it is, \<open>c\<close> has its initial value when the
  call is made and its value after the call when \<open>main\<close> returns.
\<close>

theorem only_cycle_written:
  fixes P :: "'x rv_state_scheme platform"
  shows "list_ex (writes c) (trace (snd (main P m))) = (c = CSR_CYCLE) \<and>
         \<not> list_ex (writes CSR_MSTATUS) (trace (snd (main P m))) \<and>
         \<not> list_ex (writes CSR_MCOUNTEREN) (trace (snd (main P m))) \<and>
         \<not> list_ex (writes 768) (trace (snd (main P m))) \<and>
         ((\<forall>c' st. csrs (snd (neorv32_cpu_csr_read P c' st)) c = csrs st c) \<and>
          (\<forall>c' v st. c' \<noteq> c \<longrightarrow> csrs (neorv32_cpu_csr_write P c' v st) c = csrs st c) \<and>
          c \<noteq> CSR_CYCLE \<longrightarrow>
          csrs (machine (at14 P m)) c = csrs m c \<and>
          csrs (machine (snd (main P m))) c = csrs (machine (at15 P m)) c)"
proof -
  have w: "list_ex (writes c) (trace (snd (main P m))) = (c = CSR_CYCLE)" for c
    by (auto simp add: trace_main)
  have before: "csrs (machine (at14 P m)) c = csrs m c"
    if "\<forall>c' st. csrs (snd (neorv32_cpu_csr_read P c' st)) c = csrs st c"
    using that by (simp add: at14_def at12_def init_def machine_read_into_a)
  have after: "csrs (machine (snd (main P m))) c = csrs (machine (at15 P m)) c"
    if "\<forall>c' st. csrs (snd (neorv32_cpu_csr_read P c' st)) c = csrs st c"
      and "\<forall>c' v st. c' \<noteq> c \<longrightarrow> csrs (neorv32_cpu_csr_write P c' v st) c = csrs st c"
      and "c \<noteq> CSR_CYCLE"
    using that by (simp add: machine_main at18_def at16_def machine_read_into_a machine_write_csr)
  from w [of c] w [of CSR_MSTATUS] w [of CSR_MCOUNTEREN] w [of 768] before after
  show ?thesis
    by (simp add: CSR_MSTATUS_def CSR_MCOUNTEREN_def CSR_CYCLE_def)
qed

theorem only_cycle_written_witness:
  "(\<forall>c' st. csrs (snd (neorv32_cpu_csr_read plain_platform c' st)) CSR_MSTATUS =
      csrs st CSR_MSTATUS) \<and>
   (\<forall>c' v st. c' = CSR_MSTATUS \<or>
      csrs (neorv32_cpu_csr_write plain_platform c' v st) CSR_MSTATUS = csrs st CSR_MSTATUS) \<and>
   CSR_MSTATUS \<noteq> CSR_CYCLE \<and>
   csrs reset_state CSR_MSTATUS = 6144 \<and>
   csrs (machine (at14 plain_platform reset_state)) CSR_MSTATUS = 6144 \<and>
   csrs (machine (at15 plain_platform reset_state)) CSR_MSTATUS = 6144 \<and>
   csrs (machine (snd (main plain_platform reset_state))) CSR_MSTATUS = 6144 \<and>
   csrs reset_state CSR_CYCLE = 7 \<and>
   csrs (machine (snd (main plain_platform reset_state))) CSR_CYCLE = 0"
proof -
  have h1: "\<forall>c' st. csrs (snd (neorv32_cpu_csr_read plain_platform c' st)) CSR_MSTATUS =
      csrs st CSR_MSTATUS"
    by (simp add: plain_platform_def)
  have h2: "\<forall>c' v st. c' \<noteq> CSR_MSTATUS \<longrightarrow>
      csrs (neorv32_cpu_csr_write plain_platform c' v st) CSR_MSTATUS = csrs st CSR_MSTATUS"
    by (simp add: plain_platform_def)
  have h3: "CSR_MSTATUS \<noteq> CSR_CYCLE"
    by (simp add: CSR_MSTATUS_def CSR_CYCLE_def)
  have start: "csrs reset_state CSR_MSTATUS = 6144" "csrs reset_state CSR_CYCLE = 7"
    by (simp_all add: reset_state_def CSR_MSTATUS_def CSR_CYCLE_def)
  have mid: "csrs (machine (at15 plain_platform reset_state)) CSR_MSTATUS = 6144"
    by (simp add: at15_def at14_def at12_def read_into_a_def call_goto_user_mode_def
        init_def plain_platform_def reset_state_def CSR_MSTATUS_def CSR_CYCLE_def)
  have fin: "csrs (machine (snd (main plain_platform reset_state))) CSR_CYCLE = 0"
    by (simp add: main_plain_platform)
  from only_cycle_written [of CSR_MSTATUS plain_platform reset_state] h1 h2 h3
  have "csrs (machine (at14 plain_platform reset_state)) CSR_MSTATUS =
          csrs reset_state CSR_MSTATUS \<and>
        csrs (machine (snd (main plain_platform reset_state))) CSR_MSTATUS =
          csrs (machine (at15 plain_platform reset_state)) CSR_MSTATUS"
    by blast
  with h1 h2 h3 start mid fin show ?thesis
    by auto
qed

text \<open>
  C4, as amended. No statement that \<open>main\<close> executes reads or writes \<open>CSR_MSTATUS\<close> (the
  lines that name it, 6, 8, 9 and 11, are comments): the register accesses that \<open>main\<close>
  itself performs are all to \<open>CSR_CYCLE\<close>.
\<close>

theorem main_accesses_only_cycle:
  "list_ex (accesses c) (trace (snd (main P m))) = (c = CSR_CYCLE) \<and>
   \<not> list_ex (accesses CSR_MSTATUS) (trace (snd (main P m)))"
proof -
  have "list_ex (accesses c) (trace (snd (main P m))) = (c = CSR_CYCLE)" for c
    by (auto simp add: trace_main)
  from this [of c] this [of CSR_MSTATUS] show ?thesis
    by (simp add: CSR_MSTATUS_def CSR_CYCLE_def)
qed

text \<open>
  C4, as stated, fails: in the sample run no operation of \<open>main\<close> reads or writes
  \<open>CSR_MSTATUS\<close>.
\<close>

theorem main_accesses_mstatus_counterexample:
  "\<not> list_ex (accesses CSR_MSTATUS) (trace (snd (main plain_platform reset_state)))"
  by (simp add: main_plain_platform CSR_MSTATUS_def CSR_CYCLE_def)

end
